theory Spec2Isabelle
  imports Main "HOL-Library.Word"
begin

section \<open>The subject registry\<close>

text \<open>
  \<^verbatim>\<open>performance_measuring.h\<close> is built around one X-macro,
  \<^verbatim>\<open>SUBJECT_ENUMERATION(SUBJECT)\<close>, which applies the macro it is given to the ten
  subject names in a fixed order. A subject name is a token of the preprocessor; here it
  is a constructor, and the X-macro is the list of the names in the order of the header.
\<close>

datatype SUBJECT =
    Control
  | ImplicitsWithUnsafeKeys
  | RawStoreOnRootScopeCreation
  | RawStoreOnRootScopeEnd
  | RawStoreSubscriptSet
  | RawStoreSubscriptGet
  | RawStoreCurrent
  | RawStoreFromTSD
  | TypedStoreSubscriptGet
  | TypedStoreSetValue

definition SUBJECT_ENUMERATION :: "SUBJECT list" where
  "SUBJECT_ENUMERATION =
     [Control, ImplicitsWithUnsafeKeys, RawStoreOnRootScopeCreation, RawStoreOnRootScopeEnd,
      RawStoreSubscriptSet, RawStoreSubscriptGet, RawStoreCurrent, RawStoreFromTSD,
      TypedStoreSubscriptGet, TypedStoreSetValue]"

text \<open>
  \<^verbatim>\<open>typedef CF_CLOSED_ENUM(uint64_t, InternalImplicitsMeasurementSubject)
  { SUBJECT_ENUMERATION(ENUM_MEMBER) };\<close>
  declares one enumerator per name, none with an initialiser. C gives the first
  enumerator the value 0 and every later one the value of its predecessor plus 1; the
  underlying type is \<^verbatim>\<open>uint64_t\<close>. \<open>ENUM_MEMBER\<close> numbers a list of names from a
  given value on, and the enumeration is the registry numbered from 0: a list of pairs
  (name, value of the enumerator \<^verbatim>\<open>InternalImplicitsMeasurementSubject##name\<close>).
\<close>

type_synonym uint64_t = "64 word"

fun ENUM_MEMBER :: "uint64_t \<Rightarrow> SUBJECT list \<Rightarrow> (SUBJECT \<times> uint64_t) list" where
  "ENUM_MEMBER v [] = []"
| "ENUM_MEMBER v (s # ss) = (s, v) # ENUM_MEMBER (v + 1) ss"

definition InternalImplicitsMeasurementSubject :: "(SUBJECT \<times> uint64_t) list" where
  "InternalImplicitsMeasurementSubject = ENUM_MEMBER 0 SUBJECT_ENUMERATION"

section \<open>The per-subject functions\<close>

text \<open>
  \<^verbatim>\<open>SUBJECT_ENUMERATION(RECORD_AND_READ_MEASUREMENT_FUNCTIONS)\<close> declares, for every
  subject, three functions with external linkage:
  \<^verbatim>\<open>void RecordMeasurementFor##SUBJECT(uint64_t ns)\<close>,
  \<^verbatim>\<open>uint64_t GetAccumulatedMetricFor##SUBJECT(void)\<close> and
  \<^verbatim>\<open>uint64_t GetCounterFor##SUBJECT(void)\<close>.
  The header gives them no body, so the dispatchers below take them as a parameter: a
  record of three families indexed by the subject name. A call works on a program state
  \<open>'s\<close> it may read and change, and either returns a result with the state it leaves
  behind, or does not return normally (\<open>None\<close>).
\<close>

type_synonym ('a, 's) call = "'s \<Rightarrow> ('a \<times> 's) option"

record 's per_subject =
  RecordMeasurementFor_S :: "SUBJECT \<Rightarrow> uint64_t \<Rightarrow> (unit, 's) call"
  GetAccumulatedMetricFor_S :: "SUBJECT \<Rightarrow> (uint64_t, 's) call"
  GetCounterFor_S :: "SUBJECT \<Rightarrow> (uint64_t, 's) call"

section \<open>The generic dispatchers\<close>

text \<open>
  Each dispatcher is a \<^verbatim>\<open>switch (subject)\<close> whose case labels are generated from the
  registry, one per enumerator and in registry order, followed by a \<^verbatim>\<open>default\<close>
  label. \<open>switch_subject\<close> finds the label the value of \<^verbatim>\<open>subject\<close> jumps to: the
  name of the matching case, or \<open>None\<close> for \<^verbatim>\<open>default\<close>.
\<close>

fun switch_subject :: "(SUBJECT \<times> uint64_t) list \<Rightarrow> uint64_t \<Rightarrow> SUBJECT option" where
  "switch_subject [] subject = None"
| "switch_subject ((s, label) # cases) subject =
     (if subject = label then Some s else switch_subject cases subject)"

text \<open>
  \<^verbatim>\<open>case InternalImplicitsMeasurementSubject##SUBJECT:
    RecordMeasurementFor##SUBJECT(ns); break;\<close> and \<^verbatim>\<open>default: break;\<close>
\<close>

definition RecordMeasurement ::
  "'s per_subject \<Rightarrow> uint64_t \<Rightarrow> uint64_t \<Rightarrow> (unit, 's) call" where
  "RecordMeasurement F subject ns st =
     (case switch_subject InternalImplicitsMeasurementSubject subject of
        Some s \<Rightarrow> RecordMeasurementFor_S F s ns st
      | None \<Rightarrow> Some ((), st))"

text \<open>
  \<^verbatim>\<open>case InternalImplicitsMeasurementSubject##SUBJECT:
    return GetAccumulatedMetricFor##SUBJECT();\<close> and \<^verbatim>\<open>default: return 0;\<close>
\<close>

definition GetAccumulatedMetricFor :: "'s per_subject \<Rightarrow> uint64_t \<Rightarrow> (uint64_t, 's) call" where
  "GetAccumulatedMetricFor F subject st =
     (case switch_subject InternalImplicitsMeasurementSubject subject of
        Some s \<Rightarrow> GetAccumulatedMetricFor_S F s st
      | None \<Rightarrow> Some (0, st))"

text \<open>
  \<^verbatim>\<open>case InternalImplicitsMeasurementSubject##SUBJECT:
    return GetCounterFor##SUBJECT();\<close> and \<^verbatim>\<open>default: return 0;\<close>
\<close>

definition GetCounterFor :: "'s per_subject \<Rightarrow> uint64_t \<Rightarrow> (uint64_t, 's) call" where
  "GetCounterFor F subject st =
     (case switch_subject InternalImplicitsMeasurementSubject subject of
        Some s \<Rightarrow> GetCounterFor_S F s st
      | None \<Rightarrow> Some (0, st))"

section \<open>Sequences of calls\<close>

text \<open>
  What a caller observes of a call is the value it returns. A program that records a
  list of samples makes the calls one after the other, each on the state the previous
  one left; it stops where a call does not return.
\<close>

definition returned :: "('a \<times> 's) option \<Rightarrow> 'a option" where
  "returned r = map_option fst r"

fun record_all :: "'s per_subject \<Rightarrow> (uint64_t \<times> uint64_t) list \<Rightarrow> 's \<Rightarrow> 's option" where
  "record_all F [] st = Some st"
| "record_all F ((subject, ns) # calls) st =
     (case RecordMeasurement F subject ns st of
        None \<Rightarrow> None
      | Some (_, st') \<Rightarrow> record_all F calls st')"

text \<open>
  The samples a list of calls records for one value of \<^verbatim>\<open>subject\<close>, in the order of
  the calls.
\<close>

definition samples_for :: "uint64_t \<Rightarrow> (uint64_t \<times> uint64_t) list \<Rightarrow> uint64_t list" where
  "samples_for subject calls = map snd (filter (\<lambda>c. fst c = subject) calls)"

definition twice :: "('a, 's) call \<Rightarrow> ('a \<times> 'a, 's) call" where
  "twice f st =
     (case f st of
        None \<Rightarrow> None
      | Some (x, st') \<Rightarrow>
          (case f st' of None \<Rightarrow> None | Some (y, st'') \<Rightarrow> Some ((x, y), st'')))"

section \<open>The per-subject state, from the specification\<close>

text \<open>
  Modelled from the spec: the bodies of \<^verbatim>\<open>RecordMeasurementFor##SUBJECT\<close>,
  \<^verbatim>\<open>GetAccumulatedMetricFor##SUBJECT\<close> and \<^verbatim>\<open>GetCounterFor##SUBJECT\<close> are not in the
  header. The specification gives every subject two unsigned 64-bit counters, an
  accumulated total and a count, both 0 while nothing was recorded; recording folds
  \<^verbatim>\<open>ns\<close> into the subject's total and increments its count, and changes no other
  subject's state; the readers return the current total and the current count. The
  additions are those of \<^verbatim>\<open>uint64_t\<close>, which wrap around at \<open>2 ^ 64\<close>.
\<close>

record aggregate =
  accumulated :: uint64_t
  counter :: uint64_t

type_synonym measurements = "SUBJECT \<Rightarrow> aggregate"

text \<open>
  Modelled from the spec: the state in which nothing was ever recorded. The header does
  not define the counters; the specification has both readers return 0 for a subject
  that was never recorded.
\<close>

definition process_start :: measurements where
  "process_start = (\<lambda>s. \<lparr>accumulated = 0, counter = 0\<rparr>)"

text \<open>
  Modelled from the spec: the three per-subject functions, whose bodies are not in the
  header. \<^verbatim>\<open>RecordMeasurementFor##s(ns)\<close> adds \<^verbatim>\<open>ns\<close> to the total of \<open>s\<close> and
  1 to its count; \<^verbatim>\<open>GetAccumulatedMetricFor##s()\<close> returns the total of \<open>s\<close> and
  \<^verbatim>\<open>GetCounterFor##s()\<close> its count. All three return.
\<close>

definition counters :: "measurements per_subject" where
  "counters =
     \<lparr>RecordMeasurementFor_S = (\<lambda>s ns st.
        Some ((), st(s := \<lparr>accumulated = accumulated (st s) + ns, counter = counter (st s) + 1\<rparr>))),
      GetAccumulatedMetricFor_S = (\<lambda>s st. Some (accumulated (st s), st)),
      GetCounterFor_S = (\<lambda>s st. Some (counter (st s), st))\<rparr>"

section \<open>The enumeration and the switch\<close>

lemma InternalImplicitsMeasurementSubject_eq:
  "InternalImplicitsMeasurementSubject =
     [(Control, 0), (ImplicitsWithUnsafeKeys, 1), (RawStoreOnRootScopeCreation, 2),
      (RawStoreOnRootScopeEnd, 3), (RawStoreSubscriptSet, 4), (RawStoreSubscriptGet, 5),
      (RawStoreCurrent, 6), (RawStoreFromTSD, 7), (TypedStoreSubscriptGet, 8),
      (TypedStoreSetValue, 9)]"
  by (simp add: InternalImplicitsMeasurementSubject_def SUBJECT_ENUMERATION_def)

lemma labels_distinct: "distinct (map snd InternalImplicitsMeasurementSubject)"
  by (simp add: InternalImplicitsMeasurementSubject_eq)

lemma names_distinct: "distinct (map fst InternalImplicitsMeasurementSubject)"
  by (simp add: InternalImplicitsMeasurementSubject_eq)

text \<open>
  The switch over any list of cases with pairwise different labels: a value that is a
  label selects that case, a value that is no label selects \<^verbatim>\<open>default\<close>.
\<close>

lemma switch_subject_Some:
  "distinct (map snd cases) \<Longrightarrow> (s, subject) \<in> set cases \<Longrightarrow>
     switch_subject cases subject = Some s"
  by (induction cases) (auto simp: rev_image_eqI)

lemma switch_subject_None:
  "subject \<notin> snd ` set cases \<Longrightarrow> switch_subject cases subject = None"
  by (induction cases) auto

lemma switch_subject_SomeD:
  "switch_subject cases subject = Some s \<Longrightarrow> (s, subject) \<in> set cases"
  by (induction cases) (auto split: if_splits)

lemma switch_enumerator:
  "(s, subject) \<in> set InternalImplicitsMeasurementSubject \<Longrightarrow>
     switch_subject InternalImplicitsMeasurementSubject subject = Some s"
  by (rule switch_subject_Some [OF labels_distinct])

lemma switch_default:
  "subject \<notin> snd ` set InternalImplicitsMeasurementSubject \<Longrightarrow>
     switch_subject InternalImplicitsMeasurementSubject subject = None"
  by (rule switch_subject_None)

lemma word_below_ten:
  assumes "(w :: uint64_t) < 10"
  shows "w \<in> {0, 1, 2, 3, 4, 5, 6, 7, 8, 9}"
proof -
  from assms have "unat w < 10" by (simp add: word_less_nat_alt)
  then have "unat w \<in> {0, 1, 2, 3, 4, 5, 6, 7, 8, 9}" by auto
  then have "of_nat (unat w) \<in> (of_nat ` {0, 1, 2, 3, 4, 5, 6, 7, 8, 9} :: uint64_t set)"
    by (rule imageI)
  then show ?thesis by simp
qed

lemma switch_by_ordinal:
  "switch_subject InternalImplicitsMeasurementSubject subject =
     (if subject < 10 then Some (SUBJECT_ENUMERATION ! unat subject) else None)"
proof (cases "subject < 10")
  case True
  then have "subject \<in> {0, 1, 2, 3, 4, 5, 6, 7, 8, 9}" by (rule word_below_ten)
  then show ?thesis
    by (auto simp: InternalImplicitsMeasurementSubject_eq SUBJECT_ENUMERATION_def)
next
  case False
  then have "subject \<notin> {0, 1, 2, 3, 4, 5, 6, 7, 8, 9}" by auto
  with False show ?thesis
    by (simp add: InternalImplicitsMeasurementSubject_eq)
qed

lemma not_enumerator_iff:
  "subject \<notin> snd ` set InternalImplicitsMeasurementSubject \<longleftrightarrow> 10 \<le> subject"
proof
  assume "subject \<notin> snd ` set InternalImplicitsMeasurementSubject"
  then have "subject \<notin> {0, 1, 2, 3, 4, 5, 6, 7, 8, 9}"
    by (simp add: InternalImplicitsMeasurementSubject_eq)
  with word_below_ten [of subject] have "\<not> subject < 10" by blast
  then show "10 \<le> subject" by (simp add: not_less)
next
  assume "10 \<le> subject"
  then have "subject \<notin> {0, 1, 2, 3, 4, 5, 6, 7, 8, 9}"
    by (auto simp: word_le_nat_alt)
  then show "subject \<notin> snd ` set InternalImplicitsMeasurementSubject"
    by (simp add: InternalImplicitsMeasurementSubject_eq)
qed

lemma counters_simps:
  "RecordMeasurementFor_S counters s ns st =
     Some ((), st(s := \<lparr>accumulated = accumulated (st s) + ns, counter = counter (st s) + 1\<rparr>))"
  "GetAccumulatedMetricFor_S counters s st = Some (accumulated (st s), st)"
  "GetCounterFor_S counters s st = Some (counter (st s), st)"
  by (simp_all add: counters_def)

section \<open>The dispatchers alone\<close>

text \<open>
  The theorems of this section hold for every choice \<open>F\<close> of the per-subject functions:
  they are properties of the enumeration and of the three switches of the header.
\<close>

text \<open>
  C6. The enumeration has exactly ten members, pairwise distinct, and no subject name is
  left out. Their values are 0 to 9 in the order of the registry: Control is 0,
  ImplicitsWithUnsafeKeys is 1, and so on up to TypedStoreSetValue, which is 9. The value
  of \<^verbatim>\<open>subject\<close> alone selects the subject a dispatcher call works on: a value below
  10 selects the registry entry at that position, and every other value selects the
  default branch.
\<close>

theorem subject_enumeration_ordinals:
  "InternalImplicitsMeasurementSubject =
     [(Control, 0), (ImplicitsWithUnsafeKeys, 1), (RawStoreOnRootScopeCreation, 2),
      (RawStoreOnRootScopeEnd, 3), (RawStoreSubscriptSet, 4), (RawStoreSubscriptGet, 5),
      (RawStoreCurrent, 6), (RawStoreFromTSD, 7), (TypedStoreSubscriptGet, 8),
      (TypedStoreSetValue, 9)]
   \<and> length SUBJECT_ENUMERATION = 10
   \<and> distinct SUBJECT_ENUMERATION
   \<and> set SUBJECT_ENUMERATION = UNIV
   \<and> map fst InternalImplicitsMeasurementSubject = SUBJECT_ENUMERATION
   \<and> map snd InternalImplicitsMeasurementSubject = map of_nat [0..<10]
   \<and> RecordMeasurement F subject ns =
        (if subject < 10 then RecordMeasurementFor_S F (SUBJECT_ENUMERATION ! unat subject) ns
         else (\<lambda>st. Some ((), st)))
   \<and> GetAccumulatedMetricFor F subject =
        (if subject < 10 then GetAccumulatedMetricFor_S F (SUBJECT_ENUMERATION ! unat subject)
         else (\<lambda>st. Some (0, st)))
   \<and> GetCounterFor F subject =
        (if subject < 10 then GetCounterFor_S F (SUBJECT_ENUMERATION ! unat subject)
         else (\<lambda>st. Some (0, st)))"
proof -
  have closed: "set SUBJECT_ENUMERATION = UNIV"
  proof
    show "UNIV \<subseteq> set SUBJECT_ENUMERATION"
    proof
      fix s :: SUBJECT
      show "s \<in> set SUBJECT_ENUMERATION"
        by (cases s) (simp_all add: SUBJECT_ENUMERATION_def)
    qed
  qed simp
  have ordinals: "map snd InternalImplicitsMeasurementSubject = map of_nat [0..<10]"
    by (simp add: InternalImplicitsMeasurementSubject_eq upt_rec)
  have names: "map fst InternalImplicitsMeasurementSubject = SUBJECT_ENUMERATION"
    by (simp add: InternalImplicitsMeasurementSubject_eq SUBJECT_ENUMERATION_def)
  have rec: "RecordMeasurement F subject ns =
        (if subject < 10 then RecordMeasurementFor_S F (SUBJECT_ENUMERATION ! unat subject) ns
         else (\<lambda>st. Some ((), st)))"
    by (rule ext) (simp add: RecordMeasurement_def switch_by_ordinal)
  have acc: "GetAccumulatedMetricFor F subject =
        (if subject < 10 then GetAccumulatedMetricFor_S F (SUBJECT_ENUMERATION ! unat subject)
         else (\<lambda>st. Some (0, st)))"
    by (rule ext) (simp add: GetAccumulatedMetricFor_def switch_by_ordinal)
  have cnt: "GetCounterFor F subject =
        (if subject < 10 then GetCounterFor_S F (SUBJECT_ENUMERATION ! unat subject)
         else (\<lambda>st. Some (0, st)))"
    by (rule ext) (simp add: GetCounterFor_def switch_by_ordinal)
  have len: "length SUBJECT_ENUMERATION = 10" and dist: "distinct SUBJECT_ENUMERATION"
    by (simp_all add: SUBJECT_ENUMERATION_def)
  from InternalImplicitsMeasurementSubject_eq len dist closed names ordinals rec acc cnt
  show ?thesis by blast
qed

text \<open>
  C4. For a valid subject, that is the value \<^verbatim>\<open>subject\<close> of the enumerator of a
  name \<open>s\<close>, each dispatcher is the per-subject function of \<open>s\<close>:
  \<^verbatim>\<open>RecordMeasurement(subject, ns)\<close> is \<^verbatim>\<open>RecordMeasurementFor##s(ns)\<close>,
  \<^verbatim>\<open>GetAccumulatedMetricFor(subject)\<close> is \<^verbatim>\<open>GetAccumulatedMetricFor##s()\<close> and
  \<^verbatim>\<open>GetCounterFor(subject)\<close> is \<^verbatim>\<open>GetCounterFor##s()\<close>. No other name has that
  enumerator value, so no other subject's function is the one called.
\<close>

theorem dispatch_forwards:
  assumes "(s, subject) \<in> set InternalImplicitsMeasurementSubject"
  shows "RecordMeasurement F subject ns = RecordMeasurementFor_S F s ns
       \<and> GetAccumulatedMetricFor F subject = GetAccumulatedMetricFor_S F s
       \<and> GetCounterFor F subject = GetCounterFor_S F s
       \<and> (\<forall>t. (t, subject) \<in> set InternalImplicitsMeasurementSubject \<longrightarrow> t = s)"
proof -
  from assms have sw: "switch_subject InternalImplicitsMeasurementSubject subject = Some s"
    by (rule switch_enumerator)
  have "\<And>t. (t, subject) \<in> set InternalImplicitsMeasurementSubject \<Longrightarrow> t = s"
    using sw switch_enumerator by fastforce
  moreover have "RecordMeasurement F subject ns = RecordMeasurementFor_S F s ns"
    by (rule ext) (simp add: RecordMeasurement_def sw)
  moreover have "GetAccumulatedMetricFor F subject = GetAccumulatedMetricFor_S F s"
    by (rule ext) (simp add: GetAccumulatedMetricFor_def sw)
  moreover have "GetCounterFor F subject = GetCounterFor_S F s"
    by (rule ext) (simp add: GetCounterFor_def sw)
  ultimately show ?thesis by blast
qed

theorem dispatch_forwards_witness:
  "(TypedStoreSetValue, 9) \<in> set InternalImplicitsMeasurementSubject
   \<and> RecordMeasurement counters 9 42 process_start =
       RecordMeasurementFor_S counters TypedStoreSetValue 42 process_start
   \<and> GetAccumulatedMetricFor counters 9 process_start =
       GetAccumulatedMetricFor_S counters TypedStoreSetValue process_start
   \<and> GetCounterFor counters 9 process_start =
       GetCounterFor_S counters TypedStoreSetValue process_start"
proof -
  have h: "(TypedStoreSetValue, 9) \<in> set InternalImplicitsMeasurementSubject"
    by (simp add: InternalImplicitsMeasurementSubject_eq)
  from dispatch_forwards [OF h, of counters 42] h show ?thesis by simp
qed

text \<open>
  C2. For a value of \<^verbatim>\<open>subject\<close> that is the value of none of the ten enumerators
  (by \<open>not_enumerator_iff\<close>, a value of 10 or more),
  \<^verbatim>\<open>RecordMeasurement\<close> returns and leaves the program state as it found it, so that
  no subject's total or count changes, and \<^verbatim>\<open>GetAccumulatedMetricFor\<close> and
  \<^verbatim>\<open>GetCounterFor\<close> both return 0. No per-subject function is called.
\<close>

theorem unknown_subject_default:
  assumes "subject \<notin> snd ` set InternalImplicitsMeasurementSubject"
  shows "RecordMeasurement F subject ns st = Some ((), st)
       \<and> GetAccumulatedMetricFor F subject st = Some (0, st)
       \<and> GetCounterFor F subject st = Some (0, st)"
  using switch_default [OF assms]
  by (simp add: RecordMeasurement_def GetAccumulatedMetricFor_def GetCounterFor_def)

theorem unknown_subject_default_witness:
  "10 \<notin> snd ` set InternalImplicitsMeasurementSubject
   \<and> RecordMeasurement counters 10 500 process_start = Some ((), process_start)
   \<and> GetAccumulatedMetricFor counters 10 process_start = Some (0, process_start)
   \<and> GetCounterFor counters 10 process_start = Some (0, process_start)
   \<and> 18446744073709551615 \<notin> snd ` set InternalImplicitsMeasurementSubject
   \<and> RecordMeasurement counters 18446744073709551615 500 process_start = Some ((), process_start)
   \<and> GetAccumulatedMetricFor counters 18446744073709551615 process_start = Some (0, process_start)
   \<and> GetCounterFor counters 18446744073709551615 process_start = Some (0, process_start)"
proof -
  have h: "10 \<notin> snd ` set InternalImplicitsMeasurementSubject"
    by (simp add: InternalImplicitsMeasurementSubject_eq)
  have m: "18446744073709551615 \<notin> snd ` set InternalImplicitsMeasurementSubject"
    by (simp add: InternalImplicitsMeasurementSubject_eq)
  from unknown_subject_default [OF h, of counters 500 process_start]
       unknown_subject_default [OF m, of counters 500 process_start] h m
  show ?thesis by simp
qed

text \<open>
  Every call of a dispatcher is one of two cases: the value of \<^verbatim>\<open>subject\<close> is the
  enumerator of a name and the call is that subject's function, or it is no enumerator
  and the call is the default branch.
\<close>

lemma enumerator_unique:
  assumes "(s, v) \<in> set InternalImplicitsMeasurementSubject"
      and "(s, w) \<in> set InternalImplicitsMeasurementSubject"
  shows "v = w"
  using names_distinct assms by (rule eq_key_imp_eq_value)

lemma dispatch_cases:
  obtains (enumerator) s where "(s, subject) \<in> set InternalImplicitsMeasurementSubject"
      "RecordMeasurement F subject ns st = RecordMeasurementFor_S F s ns st"
      "GetAccumulatedMetricFor F subject st = GetAccumulatedMetricFor_S F s st"
      "GetCounterFor F subject st = GetCounterFor_S F s st"
  | (default) "subject \<notin> snd ` set InternalImplicitsMeasurementSubject"
      "RecordMeasurement F subject ns st = Some ((), st)"
      "GetAccumulatedMetricFor F subject st = Some (0, st)"
      "GetCounterFor F subject st = Some (0, st)"
proof (cases "switch_subject InternalImplicitsMeasurementSubject subject")
  case None
  have "subject \<notin> snd ` set InternalImplicitsMeasurementSubject"
  proof
    assume "subject \<in> snd ` set InternalImplicitsMeasurementSubject"
    then obtain s where "(s, subject) \<in> set InternalImplicitsMeasurementSubject" by auto
    then have "switch_subject InternalImplicitsMeasurementSubject subject = Some s"
      by (rule switch_enumerator)
    with None show False by simp
  qed
  with None show ?thesis
    by (intro default)
      (simp_all add: RecordMeasurement_def GetAccumulatedMetricFor_def GetCounterFor_def)
next
  case (Some s)
  then have "(s, subject) \<in> set InternalImplicitsMeasurementSubject"
    by (rule switch_subject_SomeD)
  with Some show ?thesis
    by (intro enumerator [of s])
      (simp_all add: RecordMeasurement_def GetAccumulatedMetricFor_def GetCounterFor_def)
qed

lemma dispatch_reads_pure:
  assumes "\<And>s st. \<exists>v. GetAccumulatedMetricFor_S F s st = Some (v, st)"
      and "\<And>s st. \<exists>v. GetCounterFor_S F s st = Some (v, st)"
  shows "\<exists>v. GetAccumulatedMetricFor F subject st = Some (v, st)"
    and "\<exists>v. GetCounterFor F subject st = Some (v, st)"
proof -
  have "(\<exists>v. GetAccumulatedMetricFor F subject st = Some (v, st))
      \<and> (\<exists>v. GetCounterFor F subject st = Some (v, st))"
  proof (cases rule: dispatch_cases [of subject F 0 st])
    case (enumerator s)
    with assms show ?thesis by simp
  next
    case default
    then show ?thesis by simp
  qed
  then show "\<exists>v. GetAccumulatedMetricFor F subject st = Some (v, st)"
    and "\<exists>v. GetCounterFor F subject st = Some (v, st)"
    by blast+
qed

lemma counters_pure:
  "\<exists>v. GetAccumulatedMetricFor_S counters s st = Some (v, st)"
  "\<exists>v. GetCounterFor_S counters s st = Some (v, st)"
  by (simp_all add: counters_simps)

text \<open>
  C8. The dispatchers add no way to fail. Whenever the per-subject functions return (their
  contract: they have no error conditions and their readers never fail), so does each of
  \<^verbatim>\<open>RecordMeasurement\<close>, \<^verbatim>\<open>GetAccumulatedMetricFor\<close> and \<^verbatim>\<open>GetCounterFor\<close>, for every
  64-bit value of \<^verbatim>\<open>subject\<close>, an enumerator or not, and every \<^verbatim>\<open>ns\<close>: the result is
  a plain value with the state left behind, never an error.
\<close>

theorem dispatch_always_returns:
  assumes "\<And>s ns st. \<exists>st'. RecordMeasurementFor_S F s ns st = Some ((), st')"
      and "\<And>s st. \<exists>v st'. GetAccumulatedMetricFor_S F s st = Some (v, st')"
      and "\<And>s st. \<exists>v st'. GetCounterFor_S F s st = Some (v, st')"
  shows "(\<exists>st'. RecordMeasurement F subject ns st = Some ((), st'))
       \<and> (\<exists>v st'. GetAccumulatedMetricFor F subject st = Some (v, st'))
       \<and> (\<exists>v st'. GetCounterFor F subject st = Some (v, st'))"
proof (cases rule: dispatch_cases [of subject F ns st])
  case (enumerator s)
  with assms show ?thesis by simp
next
  case default
  then show ?thesis by simp
qed

theorem dispatch_always_returns_witness:
  "(\<exists>st'. RecordMeasurement counters 4 7 process_start = Some ((), st'))
   \<and> (\<exists>v st'. GetAccumulatedMetricFor counters 4 process_start = Some (v, st'))
   \<and> (\<exists>v st'. GetCounterFor counters 4 process_start = Some (v, st'))
   \<and> (\<exists>st'. RecordMeasurement counters 18446744073709551615 7 process_start = Some ((), st'))
   \<and> (\<exists>v st'. GetAccumulatedMetricFor counters 18446744073709551615 process_start = Some (v, st'))
   \<and> (\<exists>v st'. GetCounterFor counters 18446744073709551615 process_start = Some (v, st'))"
proof -
  have r: "\<And>s ns st. \<exists>st'. RecordMeasurementFor_S counters s ns st = Some ((), st')"
   and a: "\<And>s st. \<exists>v st'. GetAccumulatedMetricFor_S counters s st = Some (v, st')"
   and c: "\<And>s st. \<exists>v st'. GetCounterFor_S counters s st = Some (v, st')"
    by (simp_all add: counters_simps)
  from dispatch_always_returns [of counters 4 7 process_start, OF r a c]
       dispatch_always_returns [of counters 18446744073709551615 7 process_start, OF r a c]
  show ?thesis by blast
qed

text \<open>
  C10. The readers change no state. Whenever the per-subject readers return and leave the
  state as they found it, \<^verbatim>\<open>GetAccumulatedMetricFor\<close> and \<^verbatim>\<open>GetCounterFor\<close> return and
  leave the whole state as they found it, for every value of \<^verbatim>\<open>subject\<close>, an enumerator
  or not: every subject's total and count are the same before and after the read.
\<close>

theorem reads_keep_state:
  assumes "\<And>s st. \<exists>v. GetAccumulatedMetricFor_S F s st = Some (v, st)"
      and "\<And>s st. \<exists>v. GetCounterFor_S F s st = Some (v, st)"
  shows "(\<exists>v. GetAccumulatedMetricFor F subject st = Some (v, st))
       \<and> (\<exists>v. GetCounterFor F subject st = Some (v, st))"
  using dispatch_reads_pure [of F subject st, OF assms] by blast

theorem reads_keep_state_witness:
  "(\<exists>v. GetAccumulatedMetricFor counters 5 process_start = Some (v, process_start))
   \<and> (\<exists>v. GetCounterFor counters 5 process_start = Some (v, process_start))
   \<and> (\<exists>v. GetAccumulatedMetricFor counters 4096 process_start = Some (v, process_start))
   \<and> (\<exists>v. GetCounterFor counters 4096 process_start = Some (v, process_start))"
  using reads_keep_state [of counters 5 process_start, OF counters_pure]
        reads_keep_state [of counters 4096 process_start, OF counters_pure]
  by blast

text \<open>
  C7. Reading twice in a row gives the same value twice. Whenever the per-subject readers
  return and leave the state as they found it, two calls of
  \<^verbatim>\<open>GetAccumulatedMetricFor(subject)\<close> one after the other, with no call in between,
  return the same value, and so do two calls of \<^verbatim>\<open>GetCounterFor(subject)\<close>. This holds
  for every value of \<^verbatim>\<open>subject\<close>, the valid ones among them.
\<close>

theorem reads_repeat:
  assumes "\<And>s st. \<exists>v. GetAccumulatedMetricFor_S F s st = Some (v, st)"
      and "\<And>s st. \<exists>v. GetCounterFor_S F s st = Some (v, st)"
  shows "(\<exists>v. twice (GetAccumulatedMetricFor F subject) st = Some ((v, v), st))
       \<and> (\<exists>v. twice (GetCounterFor F subject) st = Some ((v, v), st))"
proof -
  from dispatch_reads_pure [of F subject st, OF assms]
  obtain a c where "GetAccumulatedMetricFor F subject st = Some (a, st)"
      and "GetCounterFor F subject st = Some (c, st)" by blast
  then show ?thesis by (simp add: twice_def)
qed

theorem reads_repeat_witness:
  "(\<exists>v. twice (GetAccumulatedMetricFor counters 0) process_start = Some ((v, v), process_start))
   \<and> (\<exists>v. twice (GetCounterFor counters 0) process_start = Some ((v, v), process_start))"
  using reads_repeat [of counters 0 process_start, OF counters_pure] by blast

text \<open>
  C3. Recording for one subject does not show in another. Take per-subject functions in
  which recording for a name returns and changes what no other name's readers return
  (each subject's state is changed by its own recording function only). Then for two
  different valid subjects \<open>A\<close> and \<open>B\<close>, the enumerators of the names \<open>a\<close> and \<open>b\<close>,
  \<^verbatim>\<open>RecordMeasurement(A, ns)\<close> returns, and \<^verbatim>\<open>GetAccumulatedMetricFor(B)\<close> and
  \<^verbatim>\<open>GetCounterFor(B)\<close> return after the call what they return before it.
\<close>

theorem record_isolated:
  assumes frame: "\<And>s t ns st. s \<noteq> t \<Longrightarrow>
            \<exists>st'. RecordMeasurementFor_S F s ns st = Some ((), st')
              \<and> returned (GetAccumulatedMetricFor_S F t st') =
                  returned (GetAccumulatedMetricFor_S F t st)
              \<and> returned (GetCounterFor_S F t st') = returned (GetCounterFor_S F t st)"
      and A: "(a, A) \<in> set InternalImplicitsMeasurementSubject"
      and B: "(b, B) \<in> set InternalImplicitsMeasurementSubject"
      and different: "A \<noteq> B"
  shows "\<exists>st'. RecordMeasurement F A ns st = Some ((), st')
           \<and> returned (GetAccumulatedMetricFor F B st') = returned (GetAccumulatedMetricFor F B st)
           \<and> returned (GetCounterFor F B st') = returned (GetCounterFor F B st)"
proof -
  have "a \<noteq> b"
  proof
    assume "a = b"
    with A B have "A = B" by (auto intro: enumerator_unique)
    with different show False by simp
  qed
  from frame [OF this, of ns st] obtain st' where
      rec: "RecordMeasurementFor_S F a ns st = Some ((), st')"
      and acc: "returned (GetAccumulatedMetricFor_S F b st') =
                returned (GetAccumulatedMetricFor_S F b st)"
      and cnt: "returned (GetCounterFor_S F b st') = returned (GetCounterFor_S F b st)"
    by blast
  have swA: "switch_subject InternalImplicitsMeasurementSubject A = Some a"
    using A by (rule switch_enumerator)
  have swB: "switch_subject InternalImplicitsMeasurementSubject B = Some b"
    using B by (rule switch_enumerator)
  from rec acc cnt show ?thesis
    by (simp add: RecordMeasurement_def GetAccumulatedMetricFor_def GetCounterFor_def swA swB)
qed

lemma counters_frame:
  "s \<noteq> t \<Longrightarrow>
     \<exists>st'. RecordMeasurementFor_S counters s ns st = Some ((), st')
       \<and> returned (GetAccumulatedMetricFor_S counters t st') =
           returned (GetAccumulatedMetricFor_S counters t st)
       \<and> returned (GetCounterFor_S counters t st') = returned (GetCounterFor_S counters t st)"
  by (simp add: counters_simps returned_def)

theorem record_isolated_witness:
  "(Control, 0) \<in> set InternalImplicitsMeasurementSubject
   \<and> (RawStoreFromTSD, 7) \<in> set InternalImplicitsMeasurementSubject
   \<and> (\<exists>st'. RecordMeasurement counters 0 100 process_start = Some ((), st')
        \<and> returned (GetAccumulatedMetricFor counters 7 st') = Some 0
        \<and> returned (GetCounterFor counters 7 st') = Some 0
        \<and> returned (GetAccumulatedMetricFor counters 0 st') = Some 100
        \<and> returned (GetCounterFor counters 0 st') = Some 1)"
proof -
  have A: "(Control, 0) \<in> set InternalImplicitsMeasurementSubject"
   and B: "(RawStoreFromTSD, 7) \<in> set InternalImplicitsMeasurementSubject"
    by (simp_all add: InternalImplicitsMeasurementSubject_eq)
  have d: "(0 :: uint64_t) \<noteq> 7" by simp
  have before: "returned (GetAccumulatedMetricFor counters 7 process_start) = Some 0"
    "returned (GetCounterFor counters 7 process_start) = Some 0"
    by (simp_all add: GetAccumulatedMetricFor_def GetCounterFor_def switch_enumerator [OF B]
        counters_simps returned_def process_start_def)
  have rec: "RecordMeasurement counters 0 100 process_start =
      Some ((), process_start(Control := \<lparr>accumulated = 100, counter = 1\<rparr>))"
    by (simp add: RecordMeasurement_def switch_enumerator [OF A] counters_simps process_start_def)
  have own: "returned (GetAccumulatedMetricFor counters 0
                (process_start(Control := \<lparr>accumulated = 100, counter = 1\<rparr>))) = Some 100"
     "returned (GetCounterFor counters 0
                (process_start(Control := \<lparr>accumulated = 100, counter = 1\<rparr>))) = Some 1"
    by (simp_all add: GetAccumulatedMetricFor_def GetCounterFor_def switch_enumerator [OF A]
        counters_simps returned_def)
  from record_isolated [of counters, OF counters_frame A B d, of 100 process_start]
  show ?thesis using A B by (simp add: before rec own)
qed

section \<open>The dispatchers over the counters of the specification\<close>

text \<open>
  The remaining properties are about what the per-subject functions compute, so they are
  stated for the counters of the specification, \<open>counters\<close>, started in
  \<open>process_start\<close>. Totals and counts are \<^verbatim>\<open>uint64_t\<close> values and their arithmetic is
  that of \<^verbatim>\<open>uint64_t\<close>.
\<close>

lemma RecordMeasurement_counters_own:
  assumes "(s, subject) \<in> set InternalImplicitsMeasurementSubject"
  shows "RecordMeasurement counters subject ns st =
     Some ((), st(s := \<lparr>accumulated = accumulated (st s) + ns, counter = counter (st s) + 1\<rparr>))"
  by (simp add: RecordMeasurement_def switch_enumerator [OF assms] counters_simps)

lemma reads_counters:
  assumes "(s, subject) \<in> set InternalImplicitsMeasurementSubject"
  shows "GetAccumulatedMetricFor counters subject st = Some (accumulated (st s), st)"
    and "GetCounterFor counters subject st = Some (counter (st s), st)"
  by (simp_all add: GetAccumulatedMetricFor_def GetCounterFor_def switch_enumerator [OF assms]
      counters_simps)

lemma RecordMeasurement_counters_other:
  assumes "(s, subject) \<in> set InternalImplicitsMeasurementSubject" and "other \<noteq> subject"
  shows "\<exists>st'. RecordMeasurement counters other ns st = Some ((), st') \<and> st' s = st s"
proof (cases rule: dispatch_cases [of other counters ns st])
  case (enumerator t)
  from enumerator(1) assms have "t \<noteq> s" by (auto dest: enumerator_unique)
  with enumerator(2) show ?thesis by (simp add: counters_simps)
next
  case default
  then show ?thesis by simp
qed

text \<open>
  The invariant of the counters along any sequence of \<^verbatim>\<open>RecordMeasurement\<close> calls,
  whatever subjects they name: the total of a valid subject grows by the sum of the
  samples recorded for it, its count by their number.
\<close>

lemma record_all_counters:
  assumes "(s, subject) \<in> set InternalImplicitsMeasurementSubject"
  shows "\<exists>st'. record_all counters calls st = Some st'
           \<and> accumulated (st' s) =
               accumulated (st s) + sum_list (map snd (filter (\<lambda>c. fst c = subject) calls))
           \<and> counter (st' s) =
               counter (st s) + of_nat (length (filter (\<lambda>c. fst c = subject) calls))"
proof (induction calls arbitrary: st)
  case Nil
  show ?case by simp
next
  case (Cons c calls)
  obtain other ns where c: "c = (other, ns)" by (cases c)
  show ?case
  proof (cases "other = subject")
    case True
    let ?st = "st(s := \<lparr>accumulated = accumulated (st s) + ns, counter = counter (st s) + 1\<rparr>)"
    from Cons.IH [of ?st] obtain st' where
        run: "record_all counters calls ?st = Some st'"
        and acc: "accumulated (st' s) =
          accumulated (?st s) + sum_list (map snd (filter (\<lambda>c. fst c = subject) calls))"
        and cnt: "counter (st' s) =
          counter (?st s) + of_nat (length (filter (\<lambda>c. fst c = subject) calls))"
      by blast
    have step: "record_all counters (c # calls) st = record_all counters calls ?st"
      using True c by (simp add: RecordMeasurement_counters_own [OF assms])
    from acc cnt have "accumulated (st' s) =
          accumulated (st s) + sum_list (map snd (filter (\<lambda>c. fst c = subject) (c # calls)))"
      and "counter (st' s) =
          counter (st s) + of_nat (length (filter (\<lambda>c. fst c = subject) (c # calls)))"
      using True c by (simp_all add: add.assoc)
    with run step show ?thesis by simp
  next
    case False
    with RecordMeasurement_counters_other [OF assms, of other ns st]
    obtain st1 where "RecordMeasurement counters other ns st = Some ((), st1)" and "st1 s = st s"
      by blast
    with Cons.IH [of st1] False c show ?thesis by simp
  qed
qed

lemma unat_sum_list: "unat (sum_list vs :: uint64_t) = sum_list (map unat vs) mod 2 ^ 64"
  by (induction vs) (simp_all add: unat_word_ariths mod_add_right_eq)

lemma filter_own: "filter (\<lambda>c. fst c = subject) (map (Pair subject) vs) = map (Pair subject) vs"
  by (induction vs) simp_all

text \<open>
  C1. Take a valid subject, the enumerator \<^verbatim>\<open>subject\<close> of a name \<open>s\<close>, and any
  sequence of \<^verbatim>\<open>RecordMeasurement\<close> calls made since the start of the process, for
  this subject, for other subjects and for values that are no enumerator, in any
  interleaving. Let \<open>v1, ..., vk\<close> be the samples of the calls
  \<^verbatim>\<open>RecordMeasurement(subject, vi)\<close>, in order. Every call returns, and afterwards
  \<^verbatim>\<open>GetAccumulatedMetricFor(subject)\<close> returns the sum \<open>v1 + ... + vk\<close> and
  \<^verbatim>\<open>GetCounterFor(subject)\<close> returns \<open>k\<close>. Both are \<^verbatim>\<open>uint64_t\<close> values: read as
  numbers they are the sum of the samples and their number modulo \<open>2 ^ 64\<close>, hence the
  sum and the number themselves while these are below \<open>2 ^ 64\<close>. When all the calls
  are for \<^verbatim>\<open>subject\<close>, the samples are those of the whole sequence. After 100, 200 and
  300 for Control the count is 3 and the total 600, whatever was recorded for other
  subjects in between.
\<close>

theorem replay_accumulates:
  assumes "(s, subject) \<in> set InternalImplicitsMeasurementSubject"
  shows "\<exists>st. record_all counters calls process_start = Some st
           \<and> GetAccumulatedMetricFor counters subject st =
               Some (sum_list (samples_for subject calls), st)
           \<and> GetCounterFor counters subject st =
               Some (of_nat (length (samples_for subject calls)), st)
           \<and> unat (sum_list (samples_for subject calls)) =
               sum_list (map unat (samples_for subject calls)) mod 2 ^ 64
           \<and> unat (of_nat (length (samples_for subject calls)) :: uint64_t) =
               length (samples_for subject calls) mod 2 ^ 64
           \<and> samples_for subject (map (Pair subject) vs) = vs"
proof -
  from record_all_counters [OF assms, of calls process_start]
  obtain st where run: "record_all counters calls process_start = Some st"
    and acc: "accumulated (st s) = sum_list (samples_for subject calls)"
    and cnt: "counter (st s) = of_nat (length (samples_for subject calls))"
    by (auto simp: samples_for_def process_start_def)
  have own: "samples_for subject (map (Pair subject) vs) = vs"
    by (simp add: samples_for_def filter_own comp_def)
  have "unat (of_nat (length (samples_for subject calls)) :: uint64_t) =
      length (samples_for subject calls) mod 2 ^ 64"
    by (simp add: unat_of_nat)
  with run acc cnt own show ?thesis
    by (simp add: reads_counters [OF assms] unat_sum_list)
qed

theorem replay_accumulates_witness:
  "(Control, 0) \<in> set InternalImplicitsMeasurementSubject
   \<and> (\<exists>st. record_all counters [(0, 100), (0, 200), (0, 300)] process_start = Some st
         \<and> GetAccumulatedMetricFor counters 0 st = Some (600, st)
         \<and> GetCounterFor counters 0 st = Some (3, st))
   \<and> (\<exists>st. record_all counters [(3, 1000), (0, 100), (12, 5), (0, 200), (7, 1), (0, 300)]
               process_start = Some st
         \<and> GetAccumulatedMetricFor counters 0 st = Some (600, st)
         \<and> GetCounterFor counters 0 st = Some (3, st))
   \<and> (\<exists>st. record_all counters [(3, 1000), (0, 100)] process_start = Some st
         \<and> GetAccumulatedMetricFor counters 0 st = Some (100, st)
         \<and> GetCounterFor counters 0 st = Some (1, st))"
proof -
  have h: "(Control, 0) \<in> set InternalImplicitsMeasurementSubject"
    by (simp add: InternalImplicitsMeasurementSubject_eq)
  from replay_accumulates [OF h, of "[(0, 100), (0, 200), (0, 300)]" "[]"]
  have one: "\<exists>st. record_all counters [(0, 100), (0, 200), (0, 300)] process_start = Some st
         \<and> GetAccumulatedMetricFor counters 0 st = Some (600, st)
         \<and> GetCounterFor counters 0 st = Some (3, st)"
    by (simp add: samples_for_def del: record_all.simps)
  from replay_accumulates
    [OF h, of "[(3, 1000), (0, 100), (12, 5), (0, 200), (7, 1), (0, 300)]" "[]"]
  have two: "\<exists>st. record_all counters [(3, 1000), (0, 100), (12, 5), (0, 200), (7, 1), (0, 300)]
               process_start = Some st
         \<and> GetAccumulatedMetricFor counters 0 st = Some (600, st)
         \<and> GetCounterFor counters 0 st = Some (3, st)"
    by (simp add: samples_for_def del: record_all.simps)
  from replay_accumulates [OF h, of "[(3, 1000), (0, 100)]" "[]"]
  have three: "\<exists>st. record_all counters [(3, 1000), (0, 100)] process_start = Some st
         \<and> GetAccumulatedMetricFor counters 0 st = Some (100, st)
         \<and> GetCounterFor counters 0 st = Some (1, st)"
    by (simp add: samples_for_def del: record_all.simps)
  from h one two three show ?thesis by blast
qed

text \<open>
  C5. A valid subject for which \<^verbatim>\<open>RecordMeasurement\<close> was never called reads 0: after
  any sequence of \<^verbatim>\<open>RecordMeasurement\<close> calls since the start of the process, none of
  them for \<^verbatim>\<open>subject\<close>, both \<^verbatim>\<open>GetAccumulatedMetricFor(subject)\<close> and
  \<^verbatim>\<open>GetCounterFor(subject)\<close> return 0. So do both reads for RawStoreFromTSD when
  nothing was recorded for it.
\<close>

theorem never_recorded_reads_zero:
  assumes "(s, subject) \<in> set InternalImplicitsMeasurementSubject"
      and "subject \<notin> fst ` set calls"
  shows "\<exists>st. record_all counters calls process_start = Some st
           \<and> GetAccumulatedMetricFor counters subject st = Some (0, st)
           \<and> GetCounterFor counters subject st = Some (0, st)"
proof -
  from assms(2) have "filter (\<lambda>c. fst c = subject) calls = []"
    by (auto simp: filter_empty_conv)
  with record_all_counters [OF assms(1), of calls process_start]
  show ?thesis
    by (auto simp: reads_counters [OF assms(1)] process_start_def)
qed

theorem never_recorded_reads_zero_witness:
  "(RawStoreFromTSD, 7) \<in> set InternalImplicitsMeasurementSubject
   \<and> 7 \<notin> fst ` set [(0 :: uint64_t, 100 :: uint64_t), (6, 250), (12, 5)]
   \<and> (\<exists>st. record_all counters [(0, 100), (6, 250), (12, 5)] process_start = Some st
         \<and> GetAccumulatedMetricFor counters 7 st = Some (0, st)
         \<and> GetCounterFor counters 7 st = Some (0, st))
   \<and> GetAccumulatedMetricFor counters 7 process_start = Some (0, process_start)
   \<and> GetCounterFor counters 7 process_start = Some (0, process_start)"
proof -
  have h: "(RawStoreFromTSD, 7) \<in> set InternalImplicitsMeasurementSubject"
    by (simp add: InternalImplicitsMeasurementSubject_eq)
  have n: "7 \<notin> fst ` set [(0 :: uint64_t, 100 :: uint64_t), (6, 250), (12, 5)]" by simp
  have e: "7 \<notin> fst ` set ([] :: (uint64_t \<times> uint64_t) list)" by simp
  from never_recorded_reads_zero [OF h n] never_recorded_reads_zero [OF h e] h n
  show ?thesis by simp
qed

text \<open>
  C9. A sample of zero nanoseconds is counted. For a valid subject, in any state,
  \<^verbatim>\<open>RecordMeasurement(subject, 0)\<close> returns; afterwards
  \<^verbatim>\<open>GetAccumulatedMetricFor(subject)\<close> returns the value \<open>a\<close> it returned before, and
  \<^verbatim>\<open>GetCounterFor(subject)\<close> returns \<open>c + 1\<close> where it returned \<open>c\<close> before. The
  count is a \<^verbatim>\<open>uint64_t\<close>: as a number, \<open>c + 1\<close> is one more than \<open>c\<close> modulo
  \<open>2 ^ 64\<close>.
\<close>

theorem zero_sample_counted:
  assumes "(s, subject) \<in> set InternalImplicitsMeasurementSubject"
  shows "\<exists>a c st'. GetAccumulatedMetricFor counters subject st = Some (a, st)
           \<and> GetCounterFor counters subject st = Some (c, st)
           \<and> RecordMeasurement counters subject 0 st = Some ((), st')
           \<and> GetAccumulatedMetricFor counters subject st' = Some (a, st')
           \<and> GetCounterFor counters subject st' = Some (c + 1, st')
           \<and> unat (c + 1) = (unat c + 1) mod 2 ^ 64"
  by (simp add: reads_counters [OF assms] RecordMeasurement_counters_own [OF assms]
      unat_word_ariths)

theorem zero_sample_counted_witness:
  "(RawStoreCurrent, 6) \<in> set InternalImplicitsMeasurementSubject
   \<and> (\<exists>st'. RecordMeasurement counters 6 0 process_start = Some ((), st')
         \<and> GetAccumulatedMetricFor counters 6 st' = Some (0, st')
         \<and> GetCounterFor counters 6 st' = Some (1, st'))"
proof -
  have h: "(RawStoreCurrent, 6) \<in> set InternalImplicitsMeasurementSubject"
    by (simp add: InternalImplicitsMeasurementSubject_eq)
  have z: "GetAccumulatedMetricFor counters 6 process_start = Some (0, process_start)"
          "GetCounterFor counters 6 process_start = Some (0, process_start)"
    by (simp_all add: reads_counters [OF h] process_start_def)
  from zero_sample_counted [OF h, of process_start] h show ?thesis
    by (auto simp: z)
qed

end
